theory Spec2Isabelle
  imports Main
begin

section \<open>The reconnecting WebSocket channel (class \<open>WebSocketService\<close>)\<close>

text \<open>
  The class wraps one browser \<open>WebSocket\<close>. Everything it does happens in a method call
  or in a callback the browser runs: the four socket handlers installed by \<open>connect()\<close>
  and the two timer callbacks. The embedding is a state record holding the private
  fields of the class together with the part of the browser the class talks to (the
  socket objects, the timer queue, the clock, the console), one HOL function per method
  and per callback, and a step function that lets a method call or a browser event
  happen.

  Conventions of the embedding:
  \<^item> a socket object is an address into \<open>heap\<close>; \<open>this.socket\<close> is an optional address;
  \<^item> a handler is a JavaScript function, compared by identity (\<open>h !== handler\<close>): it is
    a natural number naming the function, and calling it is recorded in \<open>calls\<close>.
    No handler calls back into the channel. A message handler may throw: the \<open>try\<close> in
    \<open>onmessage\<close> encloses the notification, so the class decides what happens then.
    Status and error handlers are taken to return normally: the class has no code for
    the other case;
  \<^item> \<open>JSON.parse\<close>, \<open>JSON.stringify\<close>, the outcome of \<open>new WebSocket(url)\<close> and
    which message handler throws on which message are parameters, collected in a
    \<open>platform\<close> record;
  \<^item> \<open>socket.close()\<close> is called without arguments, for which the browser defines no
    exception; the \<open>catch\<close> around it in \<open>disconnect()\<close> has therefore no branch here.
\<close>

subsection \<open>Data\<close>

datatype WebSocketStatus = Connecting | Connected | Disconnected | Error

datatype ready_state = CONNECTING | OPEN | CLOSING | CLOSED

datatype json =
    JNull
  | JBool bool
  | JNum int
  | JStr string
  | JArr "json list"
  | JObj "(string \<times> json) list"

record WebSocketMessage =
  msg_type :: string
  data :: "json option"
  timestamp :: "int option"

type_synonym handler = nat

text \<open>The two texts of \<open>getWebSocketErrorMessage\<close> and the text of the \<open>catch\<close> in \<open>connect\<close>.\<close>

datatype ws_error =
    ConnectionFailedTo string
  | ConnectionError
  | Thrown string

datatype thrown = ErrorObject string | NotAnError

datatype send_error = NotConnected

datatype close_reason = Reason string | Unknown nat

datatype console_line =
    ParseFailed
  | ClosedWarning close_reason nat
  | ReconnectionStopped

datatype call =
    MessageCall handler json
  | ErrorCall handler ws_error
  | StatusCall handler WebSocketStatus

datatype timer_action = ConnectionTimeout | Reconnect

record timer =
  tid :: nat
  due :: nat
  action :: timer_action

text \<open>
  A socket object: its \<open>readyState\<close>, the identifier of the \<open>connectionTimeout\<close> that its
  four handlers captured when \<open>connect()\<close> installed them, and the frames written to it.
\<close>

record wsock =
  readyState :: ready_state
  ctimer :: nat
  sent :: "string list"

record platform =
  JSON_parse :: "string \<Rightarrow> json option"
  JSON_stringify :: "WebSocketMessage \<Rightarrow> string"
  ctor_throws :: "thrown option"
  message_handler_throws :: "handler \<Rightarrow> json \<Rightarrow> bool"

record service =
  socket :: "nat option"
  url :: string
  reconnectAttempts :: nat
  status :: WebSocketStatus
  messageHandlers :: "handler list"
  errorHandlers :: "handler list"
  statusChangeHandlers :: "handler list"
  heap :: "nat \<Rightarrow> wsock"
  nsock :: nat
  timers :: "timer list"
  next_timer :: nat
  now :: nat
  calls :: "call list"
  console :: "console_line list"

definition maxReconnectAttempts :: nat where
  "maxReconnectAttempts = 5"

definition reconnectDelay :: nat where
  "reconnectDelay = 1000"

text \<open>
  The constructor; \<open>u\<close> is the WebSocket URL computed by \<open>getWebSocketUrl\<close>. No socket
  exists yet, no timer is pending, and the clock starts at 0.
\<close>

definition new_service :: "string \<Rightarrow> service" where
  "new_service u =
     \<lparr> socket = None, url = u, reconnectAttempts = 0, status = Disconnected,
       messageHandlers = [], errorHandlers = [], statusChangeHandlers = [],
       heap = (\<lambda>_. \<lparr> readyState = CLOSED, ctimer = 0, sent = [] \<rparr>), nsock = 0,
       timers = [], next_timer = 0, now = 0, calls = [], console = [] \<rparr>"

subsection \<open>The browser primitives the class uses\<close>

text \<open>\<open>this.socket?.readyState\<close>: undefined when \<open>this.socket\<close> is null.\<close>

definition socket_readyState :: "service \<Rightarrow> ready_state option" where
  "socket_readyState s =
     (case socket s of None \<Rightarrow> None | Some k \<Rightarrow> Some (readyState (heap s k)))"

definition set_readyState :: "nat \<Rightarrow> ready_state \<Rightarrow> service \<Rightarrow> service" where
  "set_readyState k r s = s\<lparr> heap := (heap s)(k := (heap s k)\<lparr> readyState := r \<rparr>) \<rparr>"

text \<open>
  \<open>socket.close()\<close>: a connecting or open socket starts closing, a closing or closed one
  is left alone. The close event comes later, as a browser event.
\<close>

definition ws_close :: "nat \<Rightarrow> service \<Rightarrow> service" where
  "ws_close k s =
     (if readyState (heap s k) = CONNECTING \<or> readyState (heap s k) = OPEN
      then set_readyState k CLOSING s else s)"

definition ws_send :: "nat \<Rightarrow> string \<Rightarrow> service \<Rightarrow> service" where
  "ws_send k d s = s\<lparr> heap := (heap s)(k := (heap s k)\<lparr> sent := sent (heap s k) @ [d] \<rparr>) \<rparr>"

definition setTimeout :: "timer_action \<Rightarrow> nat \<Rightarrow> service \<Rightarrow> service" where
  "setTimeout a delay s =
     s\<lparr> timers := timers s @ [\<lparr> tid = next_timer s, due = now s + delay, action = a \<rparr>],
        next_timer := next_timer s + 1 \<rparr>"

definition clearTimeout :: "nat \<Rightarrow> service \<Rightarrow> service" where
  "clearTimeout i s = s\<lparr> timers := filter (\<lambda>t. tid t \<noteq> i) (timers s) \<rparr>"

definition console_log :: "console_line \<Rightarrow> service \<Rightarrow> service" where
  "console_log l s = s\<lparr> console := console s @ [l] \<rparr>"

subsection \<open>Private methods\<close>

text \<open>
  \<open>handlers.forEach(handler => handler(x))\<close> when a handler may throw: the handlers
  are called in order, and the first one that throws ends the loop. \<open>forEach_called\<close>
  lists the handlers that were called, the throwing one last.
\<close>

fun forEach_called :: "(handler \<Rightarrow> bool) \<Rightarrow> handler list \<Rightarrow> handler list" where
  "forEach_called thr [] = []"
| "forEach_called thr (h # hs) = (if thr h then [h] else h # forEach_called thr hs)"

text \<open>
  The result of \<open>notifyMessageHandlers\<close> is whether a handler threw, and the state with
  the calls that were made.
\<close>

definition notifyMessageHandlers :: "platform \<Rightarrow> json \<Rightarrow> service \<Rightarrow> bool \<times> service" where
  "notifyMessageHandlers P m s =
     (list_ex (\<lambda>h. message_handler_throws P h m) (messageHandlers s),
      s\<lparr> calls := calls s @
           map (\<lambda>h. MessageCall h m)
             (forEach_called (\<lambda>h. message_handler_throws P h m) (messageHandlers s)) \<rparr>)"

definition notifyErrorHandlers :: "ws_error \<Rightarrow> service \<Rightarrow> service" where
  "notifyErrorHandlers e s =
     s\<lparr> calls := calls s @ map (\<lambda>h. ErrorCall h e) (errorHandlers s) \<rparr>"

definition notifyStatusChangeHandlers :: "WebSocketStatus \<Rightarrow> service \<Rightarrow> service" where
  "notifyStatusChangeHandlers st s =
     s\<lparr> calls := calls s @ map (\<lambda>h. StatusCall h st) (statusChangeHandlers s) \<rparr>"

definition setStatus :: "WebSocketStatus \<Rightarrow> service \<Rightarrow> service" where
  "setStatus st s =
     (if status s \<noteq> st then notifyStatusChangeHandlers st (s\<lparr> status := st \<rparr>) else s)"

definition getWebSocketErrorMessage :: "service \<Rightarrow> ws_error" where
  "getWebSocketErrorMessage s =
     (case socket s of
        Some k \<Rightarrow> if readyState (heap s k) = CLOSED then ConnectionFailedTo (url s)
                  else ConnectionError
      | None \<Rightarrow> ConnectionError)"

definition getCloseReason :: "nat \<Rightarrow> close_reason" where
  "getCloseReason code =
     (if code = 1000 then Reason ''Normal Closure''
      else if code = 1001 then Reason ''Going Away''
      else if code = 1002 then Reason ''Protocol Error''
      else if code = 1003 then Reason ''Unsupported Data''
      else if code = 1006 then Reason ''Abnormal Closure (Connection Refused)''
      else if code = 1007 then Reason ''Invalid Data''
      else if code = 1008 then Reason ''Policy Violation''
      else if code = 1009 then Reason ''Message Too Big''
      else if code = 1010 then Reason ''Extension Error''
      else if code = 1011 then Reason ''Internal Server Error''
      else Unknown code)"

definition attemptReconnect :: "service \<Rightarrow> service" where
  "attemptReconnect s =
     (if reconnectAttempts s \<ge> maxReconnectAttempts then s
      else let s1 = s\<lparr> reconnectAttempts := reconnectAttempts s + 1 \<rparr>
           in setTimeout Reconnect (reconnectDelay * reconnectAttempts s1) s1)"

subsection \<open>The socket handlers installed by \<open>connect()\<close>\<close>

text \<open>
  Each handler belongs to the socket \<open>k\<close> it was installed on; it reads the timer it
  captured from that socket and otherwise works on \<open>this\<close>.
\<close>

definition onopen :: "nat \<Rightarrow> service \<Rightarrow> service" where
  "onopen k s =
     (let s1 = clearTimeout (ctimer (heap s k)) s;
          s2 = setStatus Connected s1
      in s2\<lparr> reconnectAttempts := 0 \<rparr>)"

text \<open>
  The \<open>try\<close> of \<open>onmessage\<close> holds both \<open>JSON.parse\<close> and the notification, so its
  \<open>catch\<close> also runs when a message handler throws, and logs the same line.
\<close>

definition onmessage :: "platform \<Rightarrow> nat \<Rightarrow> string \<Rightarrow> service \<Rightarrow> service" where
  "onmessage P k d s =
     (case JSON_parse P d of
        Some message \<Rightarrow>
          (case notifyMessageHandlers P message s of
             (threw, s1) \<Rightarrow> if threw then console_log ParseFailed s1 else s1)
      | None \<Rightarrow> console_log ParseFailed s)"

definition onerror :: "nat \<Rightarrow> service \<Rightarrow> service" where
  "onerror k s =
     (let s1 = clearTimeout (ctimer (heap s k)) s;
          s2 = setStatus Error s1
      in notifyErrorHandlers (getWebSocketErrorMessage s2) s2)"

definition onclose :: "nat \<Rightarrow> nat \<Rightarrow> service \<Rightarrow> service" where
  "onclose k code s =
     (let s1 = clearTimeout (ctimer (heap s k)) s;
          s2 = setStatus Disconnected s1;
          s3 = (if code \<noteq> 1000 then console_log (ClosedWarning (getCloseReason code) code) s2
                else s2)
      in if code \<noteq> 1006 \<and> code \<noteq> 1002 \<and> reconnectAttempts s3 < maxReconnectAttempts
         then attemptReconnect s3
         else console_log ReconnectionStopped
                (s3\<lparr> reconnectAttempts := maxReconnectAttempts \<rparr>))"

subsection \<open>Public methods and timer callbacks\<close>

definition connect :: "platform \<Rightarrow> service \<Rightarrow> service" where
  "connect P s =
     (if socket_readyState s = Some OPEN then s
      else if socket_readyState s = Some CONNECTING then s
      else
        let s1 = setStatus Connecting s in
        case ctor_throws P of
          Some e \<Rightarrow>
            notifyErrorHandlers
              (case e of ErrorObject m \<Rightarrow> Thrown m
                       | NotAnError \<Rightarrow> Thrown ''WebSocket connection failed'')
              (setStatus Error s1)
        | None \<Rightarrow>
            let k = nsock s1;
                s2 = s1\<lparr> socket := Some k,
                         heap := (heap s1)(k := \<lparr> readyState = CONNECTING,
                                                 ctimer = next_timer s1, sent = [] \<rparr>),
                         nsock := k + 1 \<rparr>
            in setTimeout ConnectionTimeout 5000 s2)"

text \<open>The callback of \<open>connectionTimeout\<close>; it looks at \<open>this.socket\<close> when it runs.\<close>

definition connectionTimeout_cb :: "service \<Rightarrow> service" where
  "connectionTimeout_cb s =
     (case socket s of
        Some k \<Rightarrow>
          if readyState (heap s k) \<noteq> OPEN
          then (setStatus Disconnected (ws_close k s))
                 \<lparr> reconnectAttempts := maxReconnectAttempts \<rparr>
          else s
      | None \<Rightarrow> s)"

text \<open>The callback scheduled by \<open>attemptReconnect\<close>.\<close>

definition reconnect_cb :: "platform \<Rightarrow> service \<Rightarrow> service" where
  "reconnect_cb P s = (if status s = Disconnected then connect P s else s)"

definition disconnect :: "service \<Rightarrow> service" where
  "disconnect s =
     (let s1 = s\<lparr> reconnectAttempts := maxReconnectAttempts \<rparr>;
          s2 = (case socket s1 of
                  Some k \<Rightarrow>
                    (if readyState (heap s1 k) = OPEN \<or> readyState (heap s1 k) = CONNECTING
                     then ws_close k s1 else s1)\<lparr> socket := None \<rparr>
                | None \<Rightarrow> s1)
      in setStatus Disconnected s2)"

definition send :: "platform \<Rightarrow> WebSocketMessage \<Rightarrow> service \<Rightarrow> send_error + service" where
  "send P message s =
     (case socket s of
        Some k \<Rightarrow>
          if readyState (heap s k) = OPEN
          then Inr (ws_send k (JSON_stringify P message) s)
          else Inl NotConnected
      | None \<Rightarrow> Inl NotConnected)"

text \<open>
  \<open>onMessage\<close>, \<open>onError\<close> and \<open>onStatusChange\<close> push the handler; the function each of
  them returns is the matching \<open>unsubscribe\<close> below, closed over the same handler.
\<close>

definition onMessage :: "handler \<Rightarrow> service \<Rightarrow> service" where
  "onMessage h s = s\<lparr> messageHandlers := messageHandlers s @ [h] \<rparr>"

definition unsubscribeMessage :: "handler \<Rightarrow> service \<Rightarrow> service" where
  "unsubscribeMessage h s =
     s\<lparr> messageHandlers := filter (\<lambda>g. g \<noteq> h) (messageHandlers s) \<rparr>"

definition onError :: "handler \<Rightarrow> service \<Rightarrow> service" where
  "onError h s = s\<lparr> errorHandlers := errorHandlers s @ [h] \<rparr>"

definition unsubscribeError :: "handler \<Rightarrow> service \<Rightarrow> service" where
  "unsubscribeError h s =
     s\<lparr> errorHandlers := filter (\<lambda>g. g \<noteq> h) (errorHandlers s) \<rparr>"

definition onStatusChange :: "handler \<Rightarrow> service \<Rightarrow> service" where
  "onStatusChange h s = s\<lparr> statusChangeHandlers := statusChangeHandlers s @ [h] \<rparr>"

definition unsubscribeStatusChange :: "handler \<Rightarrow> service \<Rightarrow> service" where
  "unsubscribeStatusChange h s =
     s\<lparr> statusChangeHandlers := filter (\<lambda>g. g \<noteq> h) (statusChangeHandlers s) \<rparr>"

definition getStatus :: "service \<Rightarrow> WebSocketStatus" where
  "getStatus s = status s"

definition isConnected :: "service \<Rightarrow> bool" where
  "isConnected s = (socket_readyState s = Some OPEN)"

subsection \<open>Method calls and browser events\<close>

text \<open>
  What can happen to a channel. The caller's events are the public methods and the
  unsubscribe functions. The browser's events follow the WebSocket interface: a
  connecting socket opens; an open socket delivers a message; an open socket starts
  closing when the peer begins the closing handshake; a socket that is not yet closed
  closes, with a close code, its \<open>readyState\<close> set to closed before \<open>onerror\<close> (when the
  connection failed) and \<open>onclose\<close> run. Time passes, and the pending timer that is due
  first runs once its time has come.
\<close>

datatype event =
    Connect
  | Disconnect
  | Send WebSocketMessage
  | Subscribe_message handler
  | Subscribe_error handler
  | Subscribe_status handler
  | Unsubscribe_message handler
  | Unsubscribe_error handler
  | Unsubscribe_status handler
  | SockOpen nat
  | SockMessage nat string
  | SockClosing nat
  | SockClose nat nat bool
  | Elapse nat
  | Fire

fun earliest :: "timer list \<Rightarrow> timer option" where
  "earliest [] = None"
| "earliest (t # ts) =
     (case earliest ts of
        None \<Rightarrow> Some t
      | Some u \<Rightarrow> if due t \<le> due u then Some t else Some u)"

definition run_timer :: "platform \<Rightarrow> timer \<Rightarrow> service \<Rightarrow> service" where
  "run_timer P t s =
     (let s1 = clearTimeout (tid t) s
      in case action t of
           ConnectionTimeout \<Rightarrow> connectionTimeout_cb s1
         | Reconnect \<Rightarrow> reconnect_cb P s1)"

text \<open>\<open>None\<close>: the event cannot happen in this state. A \<open>send\<close> that throws leaves the
  state as it was.\<close>

fun step :: "platform \<Rightarrow> event \<Rightarrow> service \<Rightarrow> service option" where
  "step P Connect s = Some (connect P s)"
| "step P Disconnect s = Some (disconnect s)"
| "step P (Send m) s = (case send P m s of Inl e \<Rightarrow> Some s | Inr s' \<Rightarrow> Some s')"
| "step P (Subscribe_message h) s = Some (onMessage h s)"
| "step P (Subscribe_error h) s = Some (onError h s)"
| "step P (Subscribe_status h) s = Some (onStatusChange h s)"
| "step P (Unsubscribe_message h) s = Some (unsubscribeMessage h s)"
| "step P (Unsubscribe_error h) s = Some (unsubscribeError h s)"
| "step P (Unsubscribe_status h) s = Some (unsubscribeStatusChange h s)"
| "step P (SockOpen k) s =
     (if k < nsock s \<and> readyState (heap s k) = CONNECTING
      then Some (onopen k (set_readyState k OPEN s)) else None)"
| "step P (SockMessage k d) s =
     (if k < nsock s \<and> readyState (heap s k) = OPEN
      then Some (onmessage P k d s) else None)"
| "step P (SockClosing k) s =
     (if k < nsock s \<and> readyState (heap s k) = OPEN
      then Some (set_readyState k CLOSING s) else None)"
| "step P (SockClose k code failed) s =
     (if k < nsock s \<and> readyState (heap s k) \<noteq> CLOSED
      then let s1 = set_readyState k CLOSED s;
               s2 = (if failed then onerror k s1 else s1)
           in Some (onclose k code s2)
      else None)"
| "step P (Elapse d) s = Some (s\<lparr> now := now s + d \<rparr>)"
| "step P Fire s =
     (case earliest (timers s) of
        None \<Rightarrow> None
      | Some t \<Rightarrow> if due t \<le> now s then Some (run_timer P t s) else None)"

fun run :: "platform \<Rightarrow> event list \<Rightarrow> service \<Rightarrow> service option" where
  "run P [] s = Some s"
| "run P (e # es) s = (case step P e s of None \<Rightarrow> None | Some s' \<Rightarrow> run P es s')"

subsection \<open>Sample inputs\<close>

text \<open>
  A platform for the concrete runs below: its parser understands the one frame of the
  round-trip example (written here without its quotation marks) and rejects every
  other text, its serialiser writes the message type only, the \<open>WebSocket\<close>
  constructor does not throw, and handler 9 throws on every message while all other
  message handlers return.
\<close>

definition sample_platform :: platform where
  "sample_platform =
     \<lparr> JSON_parse = (\<lambda>d. if d = ''{type:add,data:{result:8}}''
                          then Some (JObj [(''type'', JStr ''add''),
                                           (''data'', JObj [(''result'', JNum 8)])])
                          else None),
       JSON_stringify = (\<lambda>m. msg_type m),
       ctor_throws = None,
       message_handler_throws = (\<lambda>h m. h = 9) \<rparr>"

text \<open>A channel whose first socket has opened: \<open>connect()\<close>, then the open event.\<close>

definition opened_service :: service where
  "opened_service =
     onopen 0 (set_readyState 0 OPEN (connect sample_platform (new_service ''ws://host/api'')))"

definition health_message :: WebSocketMessage where
  "health_message = \<lparr> msg_type = ''health'', data = None, timestamp = Some 0 \<rparr>"

text \<open>Projections used to read off the result of a run.\<close>

definition retry_view :: "service \<Rightarrow> nat \<times> timer_action list" where
  "retry_view s = (reconnectAttempts s, map action (timers s))"

definition link_view ::
  "service \<Rightarrow> nat option \<times> ready_state option \<times> WebSocketStatus \<times> nat \<times> nat" where
  "link_view s = (socket s, socket_readyState s, status s, reconnectAttempts s, nsock s)"

text \<open>
  The outcome of a \<open>send\<close> on a state: the status, what \<open>isConnected()\<close> reports, and
  either the error thrown or the frames written to each socket so far.
\<close>

definition send_result :: "send_error + service \<Rightarrow> send_error + string list list" where
  "send_result r = map_sum id (\<lambda>s. map (\<lambda>k. sent (heap s k)) [0..<nsock s]) r"

definition send_view ::
  "platform \<Rightarrow> WebSocketMessage \<Rightarrow> service \<Rightarrow> WebSocketStatus \<times> bool \<times> (send_error + string list list)" where
  "send_view P m s = (status s, isConnected s, send_result (send P m s))"

subsection \<open>Notions used in the properties\<close>

text \<open>The statuses a handler has been called with, oldest first.\<close>

fun received :: "handler \<Rightarrow> call list \<Rightarrow> WebSocketStatus list" where
  "received h [] = []"
| "received h (StatusCall g st # cs) = (if g = h then st # received h cs else received h cs)"
| "received h (MessageCall g m # cs) = received h cs"
| "received h (ErrorCall g e # cs) = received h cs"

definition seen :: "handler \<Rightarrow> service \<Rightarrow> WebSocketStatus list" where
  "seen h s = received h (calls s)"

text \<open>
  How the calls to one status handler \<open>h\<close> evolve between two states of a run in which
  \<open>h\<close> is not subscribed again: \<open>h\<close> gains no registration; if it had none it is not
  called; if it had exactly one, the statuses it is called with start from the status
  of the first state, never repeat the one before, and, while \<open>h\<close> stays registered, end
  in the status of the second state.
\<close>

definition tracks :: "handler \<Rightarrow> service \<Rightarrow> service \<Rightarrow> bool" where
  "tracks h s s' \<longleftrightarrow>
     count_list (statusChangeHandlers s') h \<le> count_list (statusChangeHandlers s) h \<and>
     (\<exists>new. received h (calls s') = received h (calls s) @ new \<and>
        (h \<notin> set (statusChangeHandlers s) \<longrightarrow> new = []) \<and>
        (h \<in> set (statusChangeHandlers s) \<and> count_list (statusChangeHandlers s) h \<le> 1 \<longrightarrow>
           distinct_adj (status s # new) \<and>
           (h \<in> set (statusChangeHandlers s') \<longrightarrow> last (status s # new) = status s')))"

text \<open>Every socket that is still connecting is the current one.\<close>

definition only_current_connecting :: "service \<Rightarrow> bool" where
  "only_current_connecting s =
     list_all (\<lambda>k. readyState (heap s k) = CONNECTING \<longrightarrow> socket s = Some k) [0..<nsock s]"

text \<open>
  The channel has given up reconnecting: the counter is at its bound, no reconnect is
  pending, and no socket is connecting (so none can open and reset the counter).
\<close>

definition given_up :: "service \<Rightarrow> bool" where
  "given_up s \<longleftrightarrow>
     reconnectAttempts s = maxReconnectAttempts \<and>
     list_all (\<lambda>t. action t \<noteq> Reconnect) (timers s) \<and>
     list_all (\<lambda>k. readyState (heap s k) \<noteq> CONNECTING) [0..<nsock s]"

section \<open>Properties\<close>

lemmas prim_defs = socket_readyState_def set_readyState_def ws_close_def ws_send_def
  setTimeout_def clearTimeout_def console_log_def notifyMessageHandlers_def
  notifyErrorHandlers_def notifyStatusChangeHandlers_def setStatus_def
  getWebSocketErrorMessage_def maxReconnectAttempts_def reconnectDelay_def

lemmas method_defs = attemptReconnect_def onopen_def onmessage_def onerror_def onclose_def
  connect_def connectionTimeout_cb_def reconnect_cb_def disconnect_def send_def
  onMessage_def unsubscribeMessage_def onError_def unsubscribeError_def
  onStatusChange_def unsubscribeStatusChange_def getStatus_def isConnected_def
  run_timer_def

lemmas sample_defs = sample_platform_def new_service_def opened_service_def
  health_message_def retry_view_def link_view_def send_result_def send_view_def seen_def

subsection \<open>Closure events and the reconnect policy\<close>

text \<open>
  Claim C1, as stated, counts a normal closure (code 1000) among the closures that are
  never retried. The handler tests the code against 1006 and 1002 only; code 1000 is
  tested for the console warning alone. On a channel that has just opened, a closure
  with code 1000 raises the counter to 1 and leaves one reconnect pending.
\<close>

theorem normal_closure_is_retried:
  "map_option retry_view
     (run sample_platform [Connect, SockOpen 0, SockClose 0 1000 False]
        (new_service ''ws://host/api''))
   = Some (1, [Reconnect])"
  by (simp add: prim_defs method_defs sample_defs)

text \<open>
  Claim C1, amended: on a closure event \<open>onclose\<close> schedules a reconnect if and only if
  the code is neither 1006 nor 1002 and the retry counter is below 5; a normal closure
  is retried like any other code. Otherwise (code 1006, code 1002, or the bound reached)
  it schedules nothing and sets the counter to the bound. In both cases the only other
  change to the timer queue is that the socket's connection timeout is cancelled.
\<close>

theorem onclose_reconnect_policy:
  "(code \<noteq> 1006 \<and> code \<noteq> 1002 \<and> reconnectAttempts s < maxReconnectAttempts \<longrightarrow>
      map action (timers (onclose k code s)) =
        map action (timers (clearTimeout (ctimer (heap s k)) s)) @ [Reconnect]) \<and>
   (\<not> (code \<noteq> 1006 \<and> code \<noteq> 1002 \<and> reconnectAttempts s < maxReconnectAttempts) \<longrightarrow>
      timers (onclose k code s) = timers (clearTimeout (ctimer (heap s k)) s) \<and>
      reconnectAttempts (onclose k code s) = maxReconnectAttempts)"
  by (simp add: onclose_def attemptReconnect_def prim_defs Let_def)

theorem onclose_reconnect_policy_witness:
  "(1000 \<noteq> (1006::nat) \<and> 1000 \<noteq> (1002::nat) \<and>
      reconnectAttempts opened_service < maxReconnectAttempts) \<and>
   map action (timers (onclose 0 1000 opened_service)) = [Reconnect] \<and>
   \<not> (1006 \<noteq> (1006::nat) \<and> 1006 \<noteq> (1002::nat) \<and>
      reconnectAttempts opened_service < maxReconnectAttempts) \<and>
   timers (onclose 0 1006 opened_service) = [] \<and>
   reconnectAttempts (onclose 0 1006 opened_service) = 5"
  using onclose_reconnect_policy [of 1000 opened_service 0]
        onclose_reconnect_policy [of 1006 opened_service 0]
  by (simp add: prim_defs method_defs sample_defs)

text \<open>
  Claim C3: a retryable closure (code neither 1006 nor 1002, counter below the bound)
  increments the counter and appends exactly one timer, a reconnect due after the base
  delay times the new counter value: 1000 ms for the first attempt, 2000 ms for the
  second. When that timer fires, its callback calls \<open>connect()\<close> if the status is
  \<open>disconnected\<close> and does nothing otherwise. Once the counter has reached the bound,
  \<open>attemptReconnect\<close> does nothing and a closure schedules no timer.
\<close>

theorem reconnect_linear_backoff:
  "(code \<noteq> 1006 \<and> code \<noteq> 1002 \<and> reconnectAttempts s < maxReconnectAttempts \<longrightarrow>
      reconnectAttempts (onclose k code s) = reconnectAttempts s + 1 \<and>
      timers (onclose k code s) =
        timers (clearTimeout (ctimer (heap s k)) s) @
          [\<lparr> tid = next_timer s,
             due = now s + reconnectDelay * (reconnectAttempts s + 1),
             action = Reconnect \<rparr>]) \<and>
   (action t = Reconnect \<longrightarrow>
      run_timer P t s = reconnect_cb P (clearTimeout (tid t) s)) \<and>
   (status s \<noteq> Disconnected \<longrightarrow> reconnect_cb P s = s) \<and>
   (status s = Disconnected \<longrightarrow> reconnect_cb P s = connect P s) \<and>
   (maxReconnectAttempts \<le> reconnectAttempts s \<longrightarrow>
      attemptReconnect s = s \<and>
      timers (onclose k code s) = timers (clearTimeout (ctimer (heap s k)) s))"
  by (simp add: onclose_def attemptReconnect_def reconnect_cb_def run_timer_def prim_defs Let_def)

theorem reconnect_linear_backoff_witness:
  "(1001 \<noteq> (1006::nat) \<and> 1001 \<noteq> (1002::nat) \<and>
      reconnectAttempts opened_service < maxReconnectAttempts) \<and>
   timers (onclose 0 1001 opened_service) = [\<lparr> tid = 1, due = 1000, action = Reconnect \<rparr>] \<and>
   timers (onclose 0 1001 (opened_service\<lparr> reconnectAttempts := 1 \<rparr>))
     = [\<lparr> tid = 1, due = 2000, action = Reconnect \<rparr>] \<and>
   status opened_service \<noteq> Disconnected \<and>
   reconnect_cb sample_platform opened_service = opened_service \<and>
   status (onclose 0 1001 (set_readyState 0 CLOSED opened_service)) = Disconnected \<and>
   nsock (reconnect_cb sample_platform
            (onclose 0 1001 (set_readyState 0 CLOSED opened_service))) = 2 \<and>
   maxReconnectAttempts \<le> reconnectAttempts (opened_service\<lparr> reconnectAttempts := 5 \<rparr>) \<and>
   timers (onclose 0 1001 (opened_service\<lparr> reconnectAttempts := 5 \<rparr>)) = []"
  using reconnect_linear_backoff
          [of 1001 opened_service 0 "\<lparr> tid = 1, due = 1000, action = Reconnect \<rparr>"
              sample_platform]
        reconnect_linear_backoff
          [of 1001 "opened_service\<lparr> reconnectAttempts := 1 \<rparr>" 0 _ sample_platform]
        reconnect_linear_backoff
          [of 1001 "onclose 0 1001 (set_readyState 0 CLOSED opened_service)" 0 _ sample_platform]
        reconnect_linear_backoff
          [of 1001 "opened_service\<lparr> reconnectAttempts := 5 \<rparr>" 0 _ sample_platform]
  by (simp add: prim_defs method_defs sample_defs)

subsection \<open>Inbound messages\<close>

lemma forEach_called_no_throw: "\<not> list_ex thr hs \<Longrightarrow> forEach_called thr hs = hs"
  by (induction hs) auto

lemma forEach_called_takeWhile:
  "forEach_called thr hs =
     takeWhile (\<lambda>h. \<not> thr h) hs @ take 1 (dropWhile (\<lambda>h. \<not> thr h) hs)"
  by (induction hs) auto

lemma list_ex_filter: "\<not> list_ex thr hs \<Longrightarrow> \<not> list_ex thr (filter Q hs)"
  by (induction hs) auto

text \<open>
  Claim C9, as stated, has a successfully parsed message delivered to every registered
  message observer. The notification runs inside the same \<open>try\<close> as the parse: when a
  handler throws, the handlers registered after it are not called, and the \<open>catch\<close>
  logs the parse-failure line although the payload parsed. With handlers 4, 9 and 3
  registered in this order and handler 9 throwing, the example frame reaches 4 and 9
  only, and one line is logged.
\<close>

theorem throwing_handler_stops_delivery:
  "map_option calls
     (run sample_platform
        [Subscribe_message 4, Subscribe_message 9, Subscribe_message 3, Connect, SockOpen 0,
         SockMessage 0 ''{type:add,data:{result:8}}'']
        (new_service ''ws://host/api''))
   = Some [MessageCall 4 (JObj [(''type'', JStr ''add''), (''data'', JObj [(''result'', JNum 8)])]), MessageCall 9 (JObj [(''type'', JStr ''add''), (''data'', JObj [(''result'', JNum 8)])])] \<and>
   map_option console
     (run sample_platform
        [Subscribe_message 4, Subscribe_message 9, Subscribe_message 3, Connect, SockOpen 0,
         SockMessage 0 ''{type:add,data:{result:8}}'']
        (new_service ''ws://host/api''))
   = Some [ParseFailed]"
  by (simp add: prim_defs method_defs sample_defs)

text \<open>
  Claim C9, amended: when the payload of an inbound message does not parse,
  \<open>onmessage\<close> writes one line to the console and changes nothing else: no handler of
  any kind is called, and status, retry counter and handler lists are as before. When
  it parses and no registered message handler throws, the parsed value itself is passed
  to every registered message handler, in registration order, and nothing else changes.
  When it parses and a handler throws, the parsed value is passed, in registration
  order, to the handlers before the first throwing one and to that one, the handlers
  after it are not called, and the same console line is written; nothing else changes,
  and nothing is reported to the error handlers.
\<close>

theorem onmessage_parse_failure_contained:
  "(JSON_parse P d = None \<longrightarrow>
      onmessage P k d s = s\<lparr> console := console s @ [ParseFailed] \<rparr>) \<and>
   (JSON_parse P d = Some m \<and>
    \<not> list_ex (\<lambda>h. message_handler_throws P h m) (messageHandlers s) \<longrightarrow>
      onmessage P k d s =
        s\<lparr> calls := calls s @ map (\<lambda>h. MessageCall h m) (messageHandlers s) \<rparr>) \<and>
   (JSON_parse P d = Some m \<and>
    list_ex (\<lambda>h. message_handler_throws P h m) (messageHandlers s) \<longrightarrow>
      onmessage P k d s =
        s\<lparr> calls := calls s @
             map (\<lambda>h. MessageCall h m)
               (takeWhile (\<lambda>h. \<not> message_handler_throws P h m) (messageHandlers s) @
                take 1 (dropWhile (\<lambda>h. \<not> message_handler_throws P h m) (messageHandlers s))),
           console := console s @ [ParseFailed] \<rparr>)"
proof (intro conjI impI)
  assume "JSON_parse P d = None"
  then show "onmessage P k d s = s\<lparr> console := console s @ [ParseFailed] \<rparr>"
    by (simp add: onmessage_def console_log_def)
next
  assume "JSON_parse P d = Some m \<and>
    \<not> list_ex (\<lambda>h. message_handler_throws P h m) (messageHandlers s)"
  then show "onmessage P k d s =
        s\<lparr> calls := calls s @ map (\<lambda>h. MessageCall h m) (messageHandlers s) \<rparr>"
    by (simp add: onmessage_def notifyMessageHandlers_def forEach_called_no_throw)
next
  assume "JSON_parse P d = Some m \<and>
    list_ex (\<lambda>h. message_handler_throws P h m) (messageHandlers s)"
  then show "onmessage P k d s =
        s\<lparr> calls := calls s @
             map (\<lambda>h. MessageCall h m)
               (takeWhile (\<lambda>h. \<not> message_handler_throws P h m) (messageHandlers s) @
                take 1 (dropWhile (\<lambda>h. \<not> message_handler_throws P h m) (messageHandlers s))),
           console := console s @ [ParseFailed] \<rparr>"
    by (simp add: onmessage_def notifyMessageHandlers_def console_log_def
          forEach_called_takeWhile)
qed

theorem onmessage_parse_failure_contained_witness:
  "JSON_parse sample_platform ''not json'' = None \<and>
   calls (onmessage sample_platform 0 ''not json'' (onMessage 3 (onMessage 4 opened_service)))
     = calls opened_service \<and>
   console (onmessage sample_platform 0 ''not json'' (onMessage 3 (onMessage 4 opened_service)))
     = [ParseFailed] \<and>
   JSON_parse sample_platform ''{type:add,data:{result:8}}'' = Some (JObj [(''type'', JStr ''add''), (''data'', JObj [(''result'', JNum 8)])]) \<and>
   \<not> list_ex (\<lambda>h. message_handler_throws sample_platform h (JObj [(''type'', JStr ''add''), (''data'', JObj [(''result'', JNum 8)])]))
        (messageHandlers (onMessage 3 (onMessage 4 opened_service))) \<and>
   calls (onmessage sample_platform 0 ''{type:add,data:{result:8}}''
            (onMessage 3 (onMessage 4 opened_service)))
     = [MessageCall 4 (JObj [(''type'', JStr ''add''), (''data'', JObj [(''result'', JNum 8)])]), MessageCall 3 (JObj [(''type'', JStr ''add''), (''data'', JObj [(''result'', JNum 8)])])] \<and>
   console (onmessage sample_platform 0 ''{type:add,data:{result:8}}''
            (onMessage 3 (onMessage 4 opened_service))) = [] \<and>
   list_ex (\<lambda>h. message_handler_throws sample_platform h (JObj [(''type'', JStr ''add''), (''data'', JObj [(''result'', JNum 8)])]))
     (messageHandlers (onMessage 3 (onMessage 9 (onMessage 4 opened_service)))) \<and>
   calls (onmessage sample_platform 0 ''{type:add,data:{result:8}}''
            (onMessage 3 (onMessage 9 (onMessage 4 opened_service))))
     = [MessageCall 4 (JObj [(''type'', JStr ''add''), (''data'', JObj [(''result'', JNum 8)])]), MessageCall 9 (JObj [(''type'', JStr ''add''), (''data'', JObj [(''result'', JNum 8)])])] \<and>
   console (onmessage sample_platform 0 ''{type:add,data:{result:8}}''
            (onMessage 3 (onMessage 9 (onMessage 4 opened_service)))) = [ParseFailed]"
  using onmessage_parse_failure_contained
          [where P = sample_platform and d = "''not json''" and k = 0
             and s = "onMessage 3 (onMessage 4 opened_service)"]
        onmessage_parse_failure_contained
          [where P = sample_platform and d = "''{type:add,data:{result:8}}''" and k = 0
             and s = "onMessage 3 (onMessage 4 opened_service)" and m = "JObj [(''type'', JStr ''add''), (''data'', JObj [(''result'', JNum 8)])]"]
        onmessage_parse_failure_contained
          [where P = sample_platform and d = "''{type:add,data:{result:8}}''" and k = 0
             and s = "onMessage 3 (onMessage 9 (onMessage 4 opened_service))" and m = "JObj [(''type'', JStr ''add''), (''data'', JObj [(''result'', JNum 8)])]"]
  by (simp add: prim_defs method_defs sample_defs)

subsection \<open>Subscribing and unsubscribing\<close>

lemma count_list_filter_other:
  "g \<noteq> h \<Longrightarrow> count_list (filter (\<lambda>x. x \<noteq> h) xs) g = count_list xs g"
  by (induction xs) auto

text \<open>
  Claim C2, as stated, makes two subscriptions of one handler function two
  registrations, each needing its own unsubscribe call. The unsubscribe function filters
  the list by identity with the handler, so one call removes both entries: after
  subscribing handler 7 twice and unsubscribing once the list is empty, and a message
  notification calls nobody.
\<close>

theorem one_unsubscribe_removes_both_registrations:
  "messageHandlers
     (unsubscribeMessage 7 (onMessage 7 (onMessage 7 (new_service ''ws://host/api'')))) = [] \<and>
   calls (snd (notifyMessageHandlers sample_platform (JStr ''x'')
     (unsubscribeMessage 7 (onMessage 7 (onMessage 7 (new_service ''ws://host/api'')))))) = []"
  by (simp add: method_defs prim_defs sample_defs)

text \<open>
  Claim C2, amended: \<open>onMessage\<close>, \<open>onError\<close> and \<open>onStatusChange\<close> append the handler to
  their list, and the unsubscribe function each returns removes every entry of that
  handler function, however often it was subscribed, and no entry of any other handler:
  the other handlers keep their registrations, in order, and the next notification
  goes to exactly those.
\<close>

theorem unsubscribe_removes_every_registration:
  "messageHandlers (onMessage h s) = messageHandlers s @ [h] \<and>
   h \<notin> set (messageHandlers (unsubscribeMessage h s)) \<and>
   (g \<noteq> h \<longrightarrow> count_list (messageHandlers (unsubscribeMessage h s)) g
                 = count_list (messageHandlers s) g) \<and>
   calls (snd (notifyMessageHandlers P m (unsubscribeMessage h s)))
     = calls s @ map (\<lambda>g. MessageCall g m)
         (forEach_called (\<lambda>g. message_handler_throws P g m)
            (filter (\<lambda>g. g \<noteq> h) (messageHandlers s))) \<and>
   (\<not> list_ex (\<lambda>g. message_handler_throws P g m) (messageHandlers s) \<longrightarrow>
      calls (snd (notifyMessageHandlers P m (unsubscribeMessage h s)))
        = calls s @ map (\<lambda>g. MessageCall g m) (filter (\<lambda>g. g \<noteq> h) (messageHandlers s))) \<and>
   errorHandlers (onError h s) = errorHandlers s @ [h] \<and>
   h \<notin> set (errorHandlers (unsubscribeError h s)) \<and>
   (g \<noteq> h \<longrightarrow> count_list (errorHandlers (unsubscribeError h s)) g
                 = count_list (errorHandlers s) g) \<and>
   calls (notifyErrorHandlers e (unsubscribeError h s))
     = calls s @ map (\<lambda>g. ErrorCall g e) (filter (\<lambda>g. g \<noteq> h) (errorHandlers s)) \<and>
   statusChangeHandlers (onStatusChange h s) = statusChangeHandlers s @ [h] \<and>
   h \<notin> set (statusChangeHandlers (unsubscribeStatusChange h s)) \<and>
   (g \<noteq> h \<longrightarrow> count_list (statusChangeHandlers (unsubscribeStatusChange h s)) g
                 = count_list (statusChangeHandlers s) g) \<and>
   calls (notifyStatusChangeHandlers st (unsubscribeStatusChange h s))
     = calls s @ map (\<lambda>g. StatusCall g st) (filter (\<lambda>g. g \<noteq> h) (statusChangeHandlers s))"
  by (simp add: method_defs prim_defs count_list_filter_other forEach_called_no_throw
        list_ex_filter)

theorem unsubscribe_removes_every_registration_witness:
  "(4::nat) \<noteq> 3 \<and>
   messageHandlers
     (unsubscribeMessage 3 (onMessage 3 (onMessage 4 (onMessage 3 opened_service)))) = [4] \<and>
   count_list (messageHandlers
     (unsubscribeMessage 3 (onMessage 3 (onMessage 4 (onMessage 3 opened_service))))) 4 = 1 \<and>
   statusChangeHandlers
     (unsubscribeStatusChange 3
        (onStatusChange 3 (onStatusChange 4 (onStatusChange 3 opened_service)))) = [4] \<and>
   calls (setStatus Disconnected
     (unsubscribeStatusChange 3
        (onStatusChange 3 (onStatusChange 4 (onStatusChange 3 opened_service)))))
     = [StatusCall 4 Disconnected]"
  using unsubscribe_removes_every_registration
          [where h = 3 and s = "onMessage 3 (onMessage 4 (onMessage 3 opened_service))"
             and g = 4]
        unsubscribe_removes_every_registration
          [where h = 3
             and s = "onStatusChange 3 (onStatusChange 4 (onStatusChange 3 opened_service))"
             and g = 4 and st = Disconnected]
  by (simp add: prim_defs method_defs sample_defs)

subsection \<open>Sending\<close>

text \<open>
  Claim C5, as stated, ties \<open>send\<close> to the channel's status. The method tests the
  \<open>readyState\<close> of the current socket instead, and the two can differ in both
  directions. After the peer has started the closing handshake of the open socket, the
  status is still \<open>connected\<close> and \<open>send\<close> throws. After \<open>disconnect()\<close> and
  \<open>connect()\<close> in a row, when the new socket opens before the close event of the old one
  arrives, that close event sets the status to \<open>disconnected\<close> while the new socket is
  open, and \<open>send\<close> writes the frame.
\<close>

theorem send_ignores_status:
  "map_option (send_view sample_platform health_message)
     (run sample_platform [Connect, SockOpen 0, SockClosing 0] (new_service ''ws://host/api''))
   = Some (Connected, False, Inl NotConnected) \<and>
   map_option (send_view sample_platform health_message)
     (run sample_platform
        [Connect, SockOpen 0, Disconnect, Connect, SockOpen 1, SockClose 0 1000 False]
        (new_service ''ws://host/api''))
   = Some (Disconnected, True, Inr [[], [''health'']])"
  by (simp add: prim_defs method_defs sample_defs)

text \<open>
  Claim C5, amended: \<open>send(message)\<close> transmits if and only if the channel holds a
  socket whose \<open>readyState\<close> is open, which is what \<open>isConnected()\<close> reports: it then
  appends the serialised message to that socket's frames and changes nothing else. In
  every other case, among them a freshly constructed channel, it throws the
  not-connected error and writes nothing.
\<close>

theorem send_iff_socket_open:
  "(isConnected s \<longrightarrow>
      (\<exists>k. socket s = Some k \<and>
           send P m s =
             Inr (s\<lparr> heap := (heap s)(k := (heap s k)
                      \<lparr> sent := sent (heap s k) @ [JSON_stringify P m] \<rparr>) \<rparr>))) \<and>
   (\<not> isConnected s \<longrightarrow> send P m s = Inl NotConnected) \<and>
   send P m (new_service u) = Inl NotConnected"
  by (auto simp add: send_def isConnected_def prim_defs new_service_def split: option.splits)

theorem send_iff_socket_open_witness:
  "isConnected opened_service \<and>
   send_result (send sample_platform health_message opened_service) = Inr [[''health'']] \<and>
   \<not> isConnected (disconnect opened_service) \<and>
   send sample_platform health_message (disconnect opened_service) = Inl NotConnected"
  using send_iff_socket_open [of opened_service sample_platform health_message]
        send_iff_socket_open [of "disconnect opened_service" sample_platform health_message]
  by (simp add: prim_defs method_defs sample_defs)

subsection \<open>Connecting\<close>

text \<open>
  Claim C6: while the current socket is connecting or open, \<open>connect()\<close> changes
  nothing: no socket is created and the status stays. Hence a second \<open>connect()\<close>
  straight after a first one that created a socket is a no-op, and two calls in a row
  create at most one socket.
\<close>

theorem connect_idempotent:
  "(socket_readyState s = Some OPEN \<or> socket_readyState s = Some CONNECTING \<longrightarrow>
      connect P s = s) \<and>
   (ctor_throws P = None \<longrightarrow> connect P (connect P s) = connect P s) \<and>
   (ctor_throws P = None \<and> socket_readyState s \<noteq> Some OPEN \<and>
    socket_readyState s \<noteq> Some CONNECTING \<longrightarrow>
      nsock (connect P (connect P s)) = nsock s + 1 \<and>
      status (connect P (connect P s)) = Connecting) \<and>
   nsock (connect P (connect P s)) \<le> nsock s + 1"
  by (auto simp add: connect_def prim_defs Let_def split: option.splits thrown.splits)

theorem connect_idempotent_witness:
  "socket_readyState opened_service = Some OPEN \<and>
   connect sample_platform opened_service = opened_service \<and>
   socket_readyState (connect sample_platform (new_service ''ws://host/api'')) = Some CONNECTING \<and>
   ctor_throws sample_platform = None \<and>
   socket_readyState (new_service ''ws://host/api'') \<noteq> Some OPEN \<and>
   socket_readyState (new_service ''ws://host/api'') \<noteq> Some CONNECTING \<and>
   nsock (connect sample_platform (connect sample_platform (new_service ''ws://host/api''))) = 1"
  using connect_idempotent [of opened_service sample_platform]
        connect_idempotent [of "new_service ''ws://host/api''" sample_platform]
        connect_idempotent [of "connect sample_platform (new_service ''ws://host/api'')" sample_platform]
  by (simp add: prim_defs method_defs sample_defs)

subsection \<open>The open event\<close>

text \<open>
  In every state a run can reach from a new channel, a socket that is still connecting
  is the channel's current socket: \<open>connect()\<close> replaces the current socket only when it
  is closing or closed, and \<open>disconnect()\<close> closes it before dropping it.
\<close>

lemma occ_iff:
  "only_current_connecting s \<longleftrightarrow>
     (\<forall>k<nsock s. readyState (heap s k) = CONNECTING \<longrightarrow> socket s = Some k)"
  by (auto simp add: only_current_connecting_def list_all_iff)

lemma setStatus_frame [simp]:
  "heap (setStatus st s) = heap s" "socket (setStatus st s) = socket s"
  "nsock (setStatus st s) = nsock s" "timers (setStatus st s) = timers s"
  "reconnectAttempts (setStatus st s) = reconnectAttempts s"
  "status (setStatus st s) = st" "next_timer (setStatus st s) = next_timer s"
  "now (setStatus st s) = now s"
  by (simp_all add: setStatus_def notifyStatusChangeHandlers_def)

lemma occ_connect: "only_current_connecting s \<Longrightarrow> only_current_connecting (connect P s)"
  unfolding occ_iff
  by (auto simp add: connect_def socket_readyState_def setTimeout_def notifyErrorHandlers_def Let_def
        less_Suc_eq split: option.splits thrown.splits)

lemma occ_disconnect: "only_current_connecting s \<Longrightarrow> only_current_connecting (disconnect s)"
  unfolding occ_iff
  by (auto simp add: disconnect_def ws_close_def set_readyState_def Let_def split: option.splits)

lemma occ_timeout: "only_current_connecting s \<Longrightarrow> only_current_connecting (connectionTimeout_cb s)"
  unfolding occ_iff
  by (auto simp add: connectionTimeout_cb_def ws_close_def set_readyState_def Let_def split: option.splits)

lemma occ_clearTimeout: "only_current_connecting (clearTimeout i s) = only_current_connecting s"
  by (simp add: occ_iff clearTimeout_def)

lemma occ_onerror: "only_current_connecting (onerror k s) = only_current_connecting s"
  by (simp add: occ_iff onerror_def clearTimeout_def notifyErrorHandlers_def Let_def)

lemma occ_onclose: "only_current_connecting (onclose k c s) = only_current_connecting s"
  by (simp add: occ_iff onclose_def attemptReconnect_def setTimeout_def clearTimeout_def console_log_def Let_def)

lemma occ_onmessage: "only_current_connecting (onmessage P k d s) = only_current_connecting s"
  by (simp add: occ_iff onmessage_def notifyMessageHandlers_def console_log_def
        split: option.splits)

lemma occ_onopen: "only_current_connecting (onopen k s) = only_current_connecting s"
  by (simp add: occ_iff onopen_def clearTimeout_def Let_def)

lemma occ_set_readyState:
  "r \<noteq> CONNECTING \<Longrightarrow> only_current_connecting s \<Longrightarrow> only_current_connecting (set_readyState k r s)"
  by (simp add: occ_iff set_readyState_def)


lemma occ_step:
  assumes "only_current_connecting s" and "step P e s = Some s'"
  shows "only_current_connecting s'"
proof (cases e)
  case Connect
  with assms show ?thesis using occ_connect by auto
next
  case Disconnect
  with assms show ?thesis using occ_disconnect by auto
next
  case (Send m)
  show ?thesis
  proof (cases "send P m s")
    case (Inl x)
    with Send assms show ?thesis by simp
  next
    case (Inr t)
    with Send assms have "s' = t" by simp
    with Inr obtain k where "s' = ws_send k (JSON_stringify P m) s"
      by (auto simp: send_def split: option.splits if_splits)
    with assms(1) show ?thesis by (simp add: occ_iff ws_send_def)
  qed
next
  case (SockOpen k)
  with assms have "s' = onopen k (set_readyState k OPEN s)" by (simp split: if_splits)
  with assms(1) show ?thesis by (simp add: occ_onopen occ_set_readyState)
next
  case (SockMessage k d)
  with assms have "s' = onmessage P k d s" by (simp split: if_splits)
  with assms(1) show ?thesis by (simp add: occ_onmessage)
next
  case (SockClosing k)
  with assms have "s' = set_readyState k CLOSING s" by (simp split: if_splits)
  with assms(1) show ?thesis by (simp add: occ_set_readyState)
next
  case (SockClose k c f)
  with assms have "s' = onclose k c (if f then onerror k (set_readyState k CLOSED s)
                                     else set_readyState k CLOSED s)"
    by (simp add: Let_def split: if_splits)
  with assms(1) show ?thesis by (simp add: occ_onclose occ_onerror occ_set_readyState)
next
  case (Elapse d)
  with assms show ?thesis by (auto simp: occ_iff)
next
  case Fire
  with assms obtain t where s': "s' = run_timer P t s"
    by (auto split: option.splits if_splits)
  have "only_current_connecting (clearTimeout (tid t) s)"
    using assms(1) by (simp add: occ_clearTimeout)
  then show ?thesis
    unfolding s' run_timer_def reconnect_cb_def Let_def
    by (cases "action t") (simp_all add: occ_timeout occ_connect)
next
  case (Subscribe_message h)
  with assms show ?thesis by (auto simp: occ_iff onMessage_def)
next
  case (Subscribe_error h)
  with assms show ?thesis by (auto simp: occ_iff onError_def)
next
  case (Subscribe_status h)
  with assms show ?thesis by (auto simp: occ_iff onStatusChange_def)
next
  case (Unsubscribe_message h)
  with assms show ?thesis by (auto simp: occ_iff unsubscribeMessage_def)
next
  case (Unsubscribe_error h)
  with assms show ?thesis by (auto simp: occ_iff unsubscribeError_def)
next
  case (Unsubscribe_status h)
  with assms show ?thesis by (auto simp: occ_iff unsubscribeStatusChange_def)
qed

lemma occ_run:
  "only_current_connecting s \<Longrightarrow> run P es s = Some s' \<Longrightarrow> only_current_connecting s'"
proof (induction es arbitrary: s)
  case Nil then show ?case by simp
next
  case (Cons e es)
  from Cons.prems(2) obtain s1 where s1: "step P e s = Some s1" and r: "run P es s1 = Some s'"
    by (cases "step P e s") simp_all
  from occ_step [OF Cons.prems(1) s1] have "only_current_connecting s1" .
  from Cons.IH [OF this r] show ?case .
qed

lemma occ_new: "only_current_connecting (new_service u)"
  by (simp add: occ_iff new_service_def)

text \<open>
  Claim C7: in any state reached from a new channel, when a socket opens, its handler
  cancels the connection timeout armed with that socket, sets the status to
  \<open>connected\<close> and resets the retry counter to zero; afterwards \<open>getStatus()\<close> returns
  \<open>connected\<close> and \<open>isConnected()\<close> returns true.
\<close>

theorem open_event_connects:
  assumes "run P es (new_service u) = Some s" and "step P (SockOpen k) s = Some s'"
  shows "status s' = Connected \<and> reconnectAttempts s' = 0 \<and>
         ctimer (heap s k) \<notin> tid ` set (timers s') \<and>
         getStatus s' = Connected \<and> isConnected s'"
proof -
  have inv: "only_current_connecting s" using occ_run [OF occ_new assms(1)] .
  from assms(2) have k: "k < nsock s" "readyState (heap s k) = CONNECTING"
    and s': "s' = onopen k (set_readyState k OPEN s)"
    by (simp_all split: if_splits)
  from inv k have cur: "socket s = Some k" by (simp add: occ_iff)
  show ?thesis
    by (auto simp add: s' cur onopen_def set_readyState_def clearTimeout_def getStatus_def isConnected_def
          socket_readyState_def Let_def)
qed

theorem open_event_connects_witness:
  "run sample_platform [Connect] (new_service ''ws://host/api'')
     = Some (connect sample_platform (new_service ''ws://host/api'')) \<and>
   step sample_platform (SockOpen 0) (connect sample_platform (new_service ''ws://host/api''))
     = Some opened_service \<and>
   status opened_service = Connected \<and> reconnectAttempts opened_service = 0 \<and>
   timers opened_service = [] \<and>
   getStatus opened_service = Connected \<and> isConnected opened_service"
  using open_event_connects
          [of sample_platform "[Connect]" "''ws://host/api''"
              "connect sample_platform (new_service ''ws://host/api'')" 0 opened_service]
  by (simp add: prim_defs method_defs sample_defs)

subsection \<open>The connection timeout\<close>

lemma given_up_iff:
  "given_up s \<longleftrightarrow>
     reconnectAttempts s = maxReconnectAttempts \<and>
     (\<forall>t \<in> set (timers s). action t \<noteq> Reconnect) \<and>
     (\<forall>k<nsock s. readyState (heap s k) \<noteq> CONNECTING)"
  by (auto simp add: given_up_def list_all_iff)

lemma earliest_in: "earliest ts = Some t \<Longrightarrow> t \<in> set ts"
  by (induction ts arbitrary: t) (auto split: option.splits if_splits)

lemma gu_disconnect: "given_up s \<Longrightarrow> given_up (disconnect s) \<and> nsock (disconnect s) = nsock s"
  by (auto simp add: given_up_iff disconnect_def ws_close_def set_readyState_def Let_def
        split: option.splits)

lemma gu_timeout_cb:
  "given_up s \<Longrightarrow> given_up (connectionTimeout_cb s) \<and> nsock (connectionTimeout_cb s) = nsock s"
  by (auto simp add: given_up_iff connectionTimeout_cb_def ws_close_def set_readyState_def
        maxReconnectAttempts_def split: option.splits)

lemma gu_clearTimeout: "given_up s \<Longrightarrow> given_up (clearTimeout i s)"
  by (simp add: given_up_iff clearTimeout_def)

lemma gu_onerror: "given_up s \<Longrightarrow> given_up (onerror k s) \<and> nsock (onerror k s) = nsock s"
  by (simp add: given_up_iff onerror_def clearTimeout_def notifyErrorHandlers_def Let_def)

lemma gu_onclose: "given_up s \<Longrightarrow> given_up (onclose k c s) \<and> nsock (onclose k c s) = nsock s"
  by (simp add: given_up_iff onclose_def clearTimeout_def console_log_def Let_def)

lemma gu_onmessage:
  "given_up s \<Longrightarrow> given_up (onmessage P k d s) \<and> nsock (onmessage P k d s) = nsock s"
  by (simp add: given_up_iff onmessage_def notifyMessageHandlers_def console_log_def
        split: option.splits)

lemma gu_set_readyState:
  "r \<noteq> CONNECTING \<Longrightarrow> given_up s \<Longrightarrow>
   given_up (set_readyState k r s) \<and> nsock (set_readyState k r s) = nsock s"
  by (simp add: given_up_iff set_readyState_def)

lemma gu_step:
  assumes "given_up s" and "e \<noteq> Connect" and "step P e s = Some s'"
  shows "given_up s' \<and> nsock s' = nsock s"
proof (cases e)
  case Connect
  with assms show ?thesis by simp
next
  case Disconnect
  with assms show ?thesis using gu_disconnect by auto
next
  case (Send m)
  show ?thesis
  proof (cases "send P m s")
    case (Inl x)
    with Send assms show ?thesis by simp
  next
    case (Inr t)
    with Send assms have "s' = t" by simp
    with Inr obtain k where "s' = ws_send k (JSON_stringify P m) s"
      by (auto simp: send_def split: option.splits if_splits)
    with assms(1) show ?thesis by (simp add: given_up_iff ws_send_def)
  qed
next
  case (Subscribe_message g)
  with assms show ?thesis by (auto simp: given_up_iff onMessage_def)
next
  case (Subscribe_error g)
  with assms show ?thesis by (auto simp: given_up_iff onError_def)
next
  case (Subscribe_status g)
  with assms show ?thesis by (auto simp: given_up_iff onStatusChange_def)
next
  case (Unsubscribe_message g)
  with assms show ?thesis by (auto simp: given_up_iff unsubscribeMessage_def)
next
  case (Unsubscribe_error g)
  with assms show ?thesis by (auto simp: given_up_iff unsubscribeError_def)
next
  case (Unsubscribe_status g)
  with assms show ?thesis by (auto simp: given_up_iff unsubscribeStatusChange_def)
next
  case (SockOpen k)
  with assms have "k < nsock s" "readyState (heap s k) = CONNECTING" by (simp_all split: if_splits)
  with assms(1) show ?thesis by (simp add: given_up_iff)
next
  case (SockMessage k d)
  with assms have "s' = onmessage P k d s" by (simp split: if_splits)
  with assms(1) show ?thesis by (simp add: gu_onmessage)
next
  case (SockClosing k)
  with assms have "s' = set_readyState k CLOSING s" by (simp split: if_splits)
  with assms(1) show ?thesis by (simp add: gu_set_readyState)
next
  case (SockClose k c f)
  with assms have "s' = onclose k c (if f then onerror k (set_readyState k CLOSED s)
                                     else set_readyState k CLOSED s)"
    by (simp add: Let_def split: if_splits)
  with assms(1) show ?thesis by (simp add: gu_onclose gu_onerror gu_set_readyState)
next
  case (Elapse d)
  with assms show ?thesis by (auto simp: given_up_iff)
next
  case Fire
  with assms obtain t where t: "earliest (timers s) = Some t" and s': "s' = run_timer P t s"
    by (auto split: option.splits if_splits)
  from earliest_in [OF t] assms(1) have "action t = ConnectionTimeout"
    by (cases "action t") (auto simp: given_up_iff)
  then have "s' = connectionTimeout_cb (clearTimeout (tid t) s)"
    by (simp add: s' run_timer_def Let_def)
  moreover have "nsock (clearTimeout (tid t) s) = nsock s" by (simp add: clearTimeout_def)
  ultimately show ?thesis using gu_timeout_cb [OF gu_clearTimeout [OF assms(1)]] by simp
qed

lemma gu_run:
  "given_up s \<Longrightarrow> Connect \<notin> set es \<Longrightarrow> run P es s = Some s' \<Longrightarrow>
   given_up s' \<and> nsock s' = nsock s"
proof (induction es arbitrary: s)
  case Nil
  then show ?case by simp
next
  case (Cons e es)
  from Cons.prems(3) obtain s1 where s1: "step P e s = Some s1" and r: "run P es s1 = Some s'"
    by (cases "step P e s") simp_all
  from Cons.prems(2) have ne: "e \<noteq> Connect" and rest: "Connect \<notin> set es" by auto
  from gu_step [OF Cons.prems(1) ne s1] have g1: "given_up s1" and n1: "nsock s1 = nsock s"
    by simp_all
  from Cons.IH [OF g1 rest r] n1 show ?case by simp
qed

text \<open>
  What the connection timeout achieves. In a state reached from a new channel, let the
  timeout fire while the current socket is not open and no reconnect is pending. Then
  the socket is closing or closed, the status is \<open>disconnected\<close> and the counter is at
  its bound; and whatever happens next, short of a \<open>connect()\<close> call, no socket is
  created, the counter stays at its bound and no reconnect becomes pending.
\<close>

lemma timeout_terminal_when_no_reconnect_pending:
  assumes reach: "run P es0 (new_service u) = Some s"
    and cur: "socket s = Some k" "readyState (heap s k) \<noteq> OPEN"
    and idle: "list_all (\<lambda>t. action t \<noteq> Reconnect) (timers s)"
    and fire: "step P Fire s = Some s1"
    and later: "Connect \<notin> set es" "run P es s1 = Some s2"
  shows "readyState (heap s1 k) \<noteq> CONNECTING \<and> readyState (heap s1 k) \<noteq> OPEN \<and>
         status s1 = Disconnected \<and> reconnectAttempts s1 = maxReconnectAttempts \<and>
         nsock s2 = nsock s \<and> reconnectAttempts s2 = maxReconnectAttempts \<and>
         list_all (\<lambda>t. action t \<noteq> Reconnect) (timers s2)"
proof -
  have inv: "only_current_connecting s" using occ_run [OF occ_new reach] .
  from fire obtain t where t: "earliest (timers s) = Some t" and s1: "s1 = run_timer P t s"
    by (auto split: option.splits if_splits)
  from earliest_in [OF t] idle have "action t = ConnectionTimeout"
    by (cases "action t") (auto simp: list_all_iff)
  then have s1': "s1 = connectionTimeout_cb (clearTimeout (tid t) s)"
    by (simp add: s1 run_timer_def Let_def)
  have now1: "readyState (heap s1 k) \<noteq> CONNECTING \<and> readyState (heap s1 k) \<noteq> OPEN \<and>
         status s1 = Disconnected \<and> reconnectAttempts s1 = maxReconnectAttempts \<and>
         nsock s1 = nsock s"
    using cur
    by (simp add: s1' connectionTimeout_cb_def clearTimeout_def ws_close_def set_readyState_def)
  have gu: "given_up s1"
    unfolding given_up_iff
  proof (intro conjI ballI allI impI)
    show "reconnectAttempts s1 = maxReconnectAttempts" using now1 by simp
  next
    fix x assume "x \<in> set (timers s1)"
    then have "x \<in> set (timers s)"
      using cur by (auto simp add: s1' connectionTimeout_cb_def clearTimeout_def ws_close_def
                      set_readyState_def split: if_splits)
    with idle show "action x \<noteq> Reconnect" by (simp add: list_all_iff)
  next
    fix j assume "j < nsock s1"
    then have j: "j < nsock s" using now1 by simp
    show "readyState (heap s1 j) \<noteq> CONNECTING"
    proof (cases "j = k")
      case True with now1 show ?thesis by simp
    next
      case False
      with inv j cur have "readyState (heap s j) \<noteq> CONNECTING" by (auto simp: occ_iff)
      with False cur show ?thesis
        by (simp add: s1' connectionTimeout_cb_def clearTimeout_def ws_close_def set_readyState_def)
    qed
  qed
  from gu_run [OF gu later] now1 show ?thesis by (simp add: given_up_iff list_all_iff)
qed

text \<open>
  Claim C4 says that after the timeout no automatic reconnect ever fires. A reconnect
  that an earlier closure scheduled is neither cancelled by the timeout callback nor
  stopped by the counter: its callback tests the status only, and the timeout has just
  made the status \<open>disconnected\<close>. The run: the first socket opens; the peer starts
  closing it; \<open>connect()\<close> is called and creates the second socket; 4.5 s later the first
  socket's close event arrives with code 1001 and schedules a reconnect for 5.5 s; at
  5 s the timeout of the second socket fires, closes it and sets the counter to 5; at
  5.5 s the reconnect fires and creates a third socket.
\<close>

theorem reconnect_fires_after_connection_timeout:
  "map_option link_view
     (run sample_platform
        [Connect, SockOpen 0, SockClosing 0, Connect, Elapse 4500, SockClose 0 1001 False,
         Elapse 500]
        (new_service ''ws://host/api''))
   = Some (Some 1, Some CONNECTING, Disconnected, 1, 2) \<and>
   map_option retry_view
     (run sample_platform
        [Connect, SockOpen 0, SockClosing 0, Connect, Elapse 4500, SockClose 0 1001 False,
         Elapse 500]
        (new_service ''ws://host/api''))
   = Some (1, [ConnectionTimeout, Reconnect]) \<and>
   map_option link_view
     (run sample_platform
        [Connect, SockOpen 0, SockClosing 0, Connect, Elapse 4500, SockClose 0 1001 False,
         Elapse 500, Fire]
        (new_service ''ws://host/api''))
   = Some (Some 1, Some CLOSING, Disconnected, 5, 2) \<and>
   map_option link_view
     (run sample_platform
        [Connect, SockOpen 0, SockClosing 0, Connect, Elapse 4500, SockClose 0 1001 False,
         Elapse 500, Fire, Elapse 500, Fire]
        (new_service ''ws://host/api''))
   = Some (Some 2, Some CONNECTING, Connecting, 5, 3)"
  by (simp add: prim_defs method_defs sample_defs)

subsection \<open>Disconnecting\<close>

text \<open>
  What \<open>disconnect()\<close> does in every state: the counter is at its bound, the socket
  reference is released, the status is \<open>disconnected\<close>, the socket that was current has
  been closed if it was open or connecting and is otherwise untouched, and a second
  \<open>disconnect()\<close> changes nothing.
\<close>

lemma disconnect_effects:
  "reconnectAttempts (disconnect s) = maxReconnectAttempts \<and>
   socket (disconnect s) = None \<and>
   status (disconnect s) = Disconnected \<and>
   (socket s = Some k \<longrightarrow> heap (disconnect s) = heap (ws_close k s)) \<and>
   (socket s = None \<longrightarrow> heap (disconnect s) = heap s) \<and>
   timers (disconnect s) = timers s \<and>
   disconnect (disconnect s) = disconnect s"
  by (simp add: disconnect_def prim_defs Let_def split: option.splits)

text \<open>
  Claim C8 says that \<open>disconnect()\<close> sets the counter to its bound so that no pending
  reconnect fires. The pending reconnect stays in the timer queue, and its callback
  tests the status, which \<open>disconnect()\<close> has set to \<open>disconnected\<close>, not the counter.
  The run: the socket opens and then closes with code 1001, which schedules a reconnect
  for 1 s later; \<open>disconnect()\<close> is called; at 1 s the reconnect fires and \<open>connect()\<close>
  creates a second socket; when that socket opens the channel is \<open>connected\<close> again
  with the counter back at zero.
\<close>

theorem reconnect_fires_after_disconnect:
  "map_option link_view
     (run sample_platform [Connect, SockOpen 0, SockClose 0 1001 False, Disconnect]
        (new_service ''ws://host/api''))
   = Some (None, None, Disconnected, 5, 1) \<and>
   map_option retry_view
     (run sample_platform [Connect, SockOpen 0, SockClose 0 1001 False, Disconnect]
        (new_service ''ws://host/api''))
   = Some (5, [Reconnect]) \<and>
   map_option link_view
     (run sample_platform
        [Connect, SockOpen 0, SockClose 0 1001 False, Disconnect, Elapse 1000, Fire]
        (new_service ''ws://host/api''))
   = Some (Some 1, Some CONNECTING, Connecting, 5, 2) \<and>
   map_option link_view
     (run sample_platform
        [Connect, SockOpen 0, SockClose 0 1001 False, Disconnect, Elapse 1000, Fire, SockOpen 1]
        (new_service ''ws://host/api''))
   = Some (Some 1, Some OPEN, Connected, 0, 2)"
  by (simp add: prim_defs method_defs sample_defs)

subsection \<open>Status notifications\<close>

lemma received_append [simp]: "received h (xs @ ys) = received h xs @ received h ys"
  by (induction h xs rule: received.induct) auto

lemma received_status_map [simp]:
  "received h (map (\<lambda>g. StatusCall g st) hs) = replicate (count_list hs h) st"
  by (induction hs) auto

lemma received_message_map [simp]: "received h (map (\<lambda>g. MessageCall g m) hs) = []"
  by (induction hs) auto

lemma received_error_map [simp]: "received h (map (\<lambda>g. ErrorCall g e) hs) = []"
  by (induction hs) auto

lemma tracks_refl: "tracks h s s"
  by (simp add: tracks_def)

lemma count_list_le_in: "count_list xs h \<le> count_list ys h \<Longrightarrow> h \<in> set xs \<Longrightarrow> h \<in> set ys"
  by (metis count_list_0_iff le_zero_eq)

lemma tracks_trans:
  assumes 1: "tracks h s s1" and 2: "tracks h s1 s2"
  shows "tracks h s s2"
proof -
  let ?H = statusChangeHandlers
  from 1 have c1: "count_list (?H s1) h \<le> count_list (?H s) h"
    by (simp add: tracks_def)
  from 1 obtain n1 where p1:
    "received h (calls s1) = received h (calls s) @ n1 \<and>
     (h \<notin> set (?H s) \<longrightarrow> n1 = []) \<and>
     (h \<in> set (?H s) \<and> count_list (?H s) h \<le> 1 \<longrightarrow>
        distinct_adj (status s # n1) \<and>
        (h \<in> set (?H s1) \<longrightarrow> last (status s # n1) = status s1))"
    unfolding tracks_def by (elim conjE exE) (rule that, intro conjI)
  from p1 have r1: "received h (calls s1) = received h (calls s) @ n1" by simp
  from p1 have e1: "h \<notin> set (?H s) \<Longrightarrow> n1 = []" by simp
  from p1 have d1: "h \<in> set (?H s) \<Longrightarrow> count_list (?H s) h \<le> 1 \<Longrightarrow>
      distinct_adj (status s # n1)" by simp
  from p1 have l1: "h \<in> set (?H s) \<Longrightarrow> count_list (?H s) h \<le> 1 \<Longrightarrow>
      h \<in> set (?H s1) \<Longrightarrow> last (status s # n1) = status s1" by simp
  from 2 have c2: "count_list (?H s2) h \<le> count_list (?H s1) h"
    by (simp add: tracks_def)
  from 2 obtain n2 where p2:
    "received h (calls s2) = received h (calls s1) @ n2 \<and>
     (h \<notin> set (?H s1) \<longrightarrow> n2 = []) \<and>
     (h \<in> set (?H s1) \<and> count_list (?H s1) h \<le> 1 \<longrightarrow>
        distinct_adj (status s1 # n2) \<and>
        (h \<in> set (?H s2) \<longrightarrow> last (status s1 # n2) = status s2))"
    unfolding tracks_def by (elim conjE exE) (rule that, intro conjI)
  from p2 have r2: "received h (calls s2) = received h (calls s1) @ n2" by simp
  from p2 have e2: "h \<notin> set (?H s1) \<Longrightarrow> n2 = []" by simp
  from p2 have d2: "h \<in> set (?H s1) \<Longrightarrow> count_list (?H s1) h \<le> 1 \<Longrightarrow>
      distinct_adj (status s1 # n2)" by simp
  from p2 have l2: "h \<in> set (?H s1) \<Longrightarrow> count_list (?H s1) h \<le> 1 \<Longrightarrow>
      h \<in> set (?H s2) \<Longrightarrow> last (status s1 # n2) = status s2" by simp
  have r: "received h (calls s2) = received h (calls s) @ (n1 @ n2)"
    unfolding r2 r1 by simp
  have e: "n1 @ n2 = []" if "h \<notin> set (?H s)"
  proof -
    from that have "h \<notin> set (?H s1)" using count_list_le_in [OF c1] by auto
    with that e1 e2 show ?thesis by simp
  qed
  have dl: "distinct_adj (status s # n1 @ n2) \<and>
            (h \<in> set (?H s2) \<longrightarrow> last (status s # n1 @ n2) = status s2)"
    if m: "h \<in> set (?H s)" and o: "count_list (?H s) h \<le> 1"
  proof (cases "h \<in> set (?H s1)")
    case False
    then have "n2 = []" by (rule e2)
    moreover from False have "h \<notin> set (?H s2)" using count_list_le_in [OF c2] by auto
    ultimately show ?thesis using d1 [OF m o] by simp
  next
    case True
    from c1 o have o1: "count_list (?H s1) h \<le> 1" by simp
    note a = d1 [OF m o] and b = l1 [OF m o True] and c = d2 [OF True o1]
    have "distinct_adj ((status s # n1) @ n2)"
    proof (cases n2)
      case Nil with a show ?thesis by simp
    next
      case (Cons x xs)
      with c have "status s1 \<noteq> x" "distinct_adj n2" by (simp_all add: distinct_adj_Cons)
      with a b Cons show ?thesis by (simp add: distinct_adj_append_iff del: append_Cons last.simps)
    qed
    moreover have "last (status s # n1 @ n2) = status s2" if "h \<in> set (?H s2)"
    proof (cases n2)
      case Nil with l2 [OF True o1 that] b show ?thesis by simp
    next
      case (Cons x xs) with l2 [OF True o1 that] show ?thesis by simp
    qed
    ultimately show ?thesis by simp
  qed
  show ?thesis
    unfolding tracks_def
    using c1 c2 r e dl by (intro conjI exI [of _ "n1 @ n2"]) auto
qed

lemma tracks_frame:
  "statusChangeHandlers s' = statusChangeHandlers s \<Longrightarrow> status s' = status s \<Longrightarrow>
   received h (calls s') = received h (calls s) \<Longrightarrow> tracks h s s'"
  by (simp add: tracks_def)

lemma tracks_setStatus0: "tracks h s (setStatus st s)"
proof (cases "h \<in> set (statusChangeHandlers s) \<and> count_list (statusChangeHandlers s) h \<le> 1")
  case True
  then have "count_list (statusChangeHandlers s) h \<noteq> 0" by (simp add: count_list_0_iff)
  with True have "count_list (statusChangeHandlers s) h = 1" by linarith
  with True show ?thesis
    by (simp add: tracks_def setStatus_def notifyStatusChangeHandlers_def)
next
  case False
  then show ?thesis
    by (auto simp add: tracks_def setStatus_def notifyStatusChangeHandlers_def)
qed

lemma tracks_setStatus: "tracks h s t \<Longrightarrow> tracks h s (setStatus st t)"
  by (erule tracks_trans) (rule tracks_setStatus0)

lemma tracks_clearTimeout: "tracks h s t \<Longrightarrow> tracks h s (clearTimeout i t)"
  by (erule tracks_trans) (rule tracks_frame; simp add: clearTimeout_def)

lemma tracks_setTimeout: "tracks h s t \<Longrightarrow> tracks h s (setTimeout a d t)"
  by (erule tracks_trans) (rule tracks_frame; simp add: setTimeout_def)

lemma tracks_console_log: "tracks h s t \<Longrightarrow> tracks h s (console_log l t)"
  by (erule tracks_trans) (rule tracks_frame; simp add: console_log_def)

lemma tracks_notifyError: "tracks h s t \<Longrightarrow> tracks h s (notifyErrorHandlers e t)"
  by (erule tracks_trans) (rule tracks_frame; simp add: notifyErrorHandlers_def)

lemma tracks_notifyMessage:
  "tracks h s t \<Longrightarrow> tracks h s (snd (notifyMessageHandlers P m t))"
  by (erule tracks_trans) (rule tracks_frame; simp add: notifyMessageHandlers_def)

lemma tracks_set_readyState: "tracks h s t \<Longrightarrow> tracks h s (set_readyState k r t)"
  by (erule tracks_trans) (rule tracks_frame; simp add: set_readyState_def)

lemma tracks_ws_close: "tracks h s t \<Longrightarrow> tracks h s (ws_close k t)"
  by (simp add: ws_close_def tracks_set_readyState)

lemma tracks_ws_send: "tracks h s t \<Longrightarrow> tracks h s (ws_send k d t)"
  by (erule tracks_trans) (rule tracks_frame; simp add: ws_send_def)

lemma tracks_attempts: "tracks h s t \<Longrightarrow> tracks h s (t\<lparr> reconnectAttempts := a \<rparr>)"
  by (erule tracks_trans) (rule tracks_frame; simp)

lemma tracks_socket: "tracks h s t \<Longrightarrow> tracks h s (t\<lparr> socket := a \<rparr>)"
  by (erule tracks_trans) (rule tracks_frame; simp)

lemma tracks_attemptReconnect: "tracks h s t \<Longrightarrow> tracks h s (attemptReconnect t)"
  by (simp add: attemptReconnect_def Let_def tracks_setTimeout tracks_attempts)

lemma tracks_onopen: "tracks h s t \<Longrightarrow> tracks h s (onopen k t)"
  by (simp add: onopen_def Let_def tracks_attempts tracks_setStatus tracks_clearTimeout)

lemma onmessage_parsed:
  "JSON_parse P d = Some m \<Longrightarrow>
   onmessage P k d t =
     (if fst (notifyMessageHandlers P m t)
      then console_log ParseFailed (snd (notifyMessageHandlers P m t))
      else snd (notifyMessageHandlers P m t))"
  by (simp add: onmessage_def split: prod.splits)

lemma tracks_onmessage:
  assumes "tracks h s t"
  shows "tracks h s (onmessage P k d t)"
proof (cases "JSON_parse P d")
  case None
  with assms show ?thesis by (simp add: onmessage_def tracks_console_log)
next
  case (Some m)
  have "tracks h s (snd (notifyMessageHandlers P m t))"
    using assms by (rule tracks_notifyMessage)
  then show ?thesis by (simp add: onmessage_parsed [OF Some] tracks_console_log)
qed

lemma tracks_onerror: "tracks h s t \<Longrightarrow> tracks h s (onerror k t)"
  by (simp add: onerror_def Let_def tracks_notifyError tracks_setStatus tracks_clearTimeout)

lemma tracks_onclose: "tracks h s t \<Longrightarrow> tracks h s (onclose k c t)"
  by (simp add: onclose_def Let_def tracks_attemptReconnect tracks_console_log tracks_attempts
        tracks_setStatus tracks_clearTimeout)

lemma tracks_connect: "tracks h s t \<Longrightarrow> tracks h s (connect P t)"
proof -
  assume a: "tracks h s t"
  have new: "tracks h s
     (setTimeout ConnectionTimeout 5000
        ((setStatus Connecting t)\<lparr> socket := Some k, heap := hp, nsock := n \<rparr>))" for k hp n
    by (rule tracks_setTimeout, rule tracks_trans [OF tracks_setStatus [OF a]],
        rule tracks_frame; simp)
  show ?thesis
    by (simp add: connect_def Let_def a new tracks_notifyError tracks_setStatus
          split: option.splits)
qed

lemma tracks_timeout_cb: "tracks h s t \<Longrightarrow> tracks h s (connectionTimeout_cb t)"
  by (simp add: connectionTimeout_cb_def tracks_attempts tracks_setStatus tracks_ws_close
        split: option.splits)

lemma tracks_reconnect_cb: "tracks h s t \<Longrightarrow> tracks h s (reconnect_cb P t)"
  by (simp add: reconnect_cb_def tracks_connect)

lemma tracks_disconnect: "tracks h s t \<Longrightarrow> tracks h s (disconnect t)"
  by (simp add: disconnect_def Let_def tracks_attempts tracks_setStatus tracks_ws_close
        tracks_socket split: option.splits)

lemma tracks_send: "send P m t = Inr t' \<Longrightarrow> tracks h s t \<Longrightarrow> tracks h s t'"
  by (auto simp add: send_def tracks_ws_send split: option.splits if_splits)

lemma count_list_filter_le: "count_list (filter Q xs) h \<le> count_list xs h"
  by (induction xs) auto

lemma tracks_unsubscribe: "tracks h s (unsubscribeStatusChange g s)"
  by (simp add: tracks_def unsubscribeStatusChange_def count_list_filter_le)

lemma tracks_subscribe: "g \<noteq> h \<Longrightarrow> tracks h s (onStatusChange g s)"
  by (simp add: tracks_def onStatusChange_def)

lemma tracks_step:
  assumes "e \<noteq> Subscribe_status h" and "step P e s = Some s'"
  shows "tracks h s s'"
proof (cases e)
  case Connect
  with assms show ?thesis using tracks_connect [OF tracks_refl] by auto
next
  case Disconnect
  with assms show ?thesis using tracks_disconnect [OF tracks_refl] by auto
next
  case (Send m)
  show ?thesis
  proof (cases "send P m s")
    case (Inl x)
    with Send assms show ?thesis by (simp add: tracks_refl)
  next
    case (Inr t)
    with Send assms have "s' = t" by simp
    with Inr show ?thesis using tracks_send [OF _ tracks_refl] by simp
  qed
next
  case (Subscribe_message g)
  with assms have "s' = onMessage g s" by simp
  then show ?thesis by (simp add: onMessage_def tracks_frame)
next
  case (Subscribe_error g)
  with assms have "s' = onError g s" by simp
  then show ?thesis by (simp add: onError_def tracks_frame)
next
  case (Subscribe_status g)
  with assms have "s' = onStatusChange g s" and "g \<noteq> h" by auto
  then show ?thesis by (simp add: tracks_subscribe)
next
  case (Unsubscribe_message g)
  with assms have "s' = unsubscribeMessage g s" by simp
  then show ?thesis by (simp add: unsubscribeMessage_def tracks_frame)
next
  case (Unsubscribe_error g)
  with assms have "s' = unsubscribeError g s" by simp
  then show ?thesis by (simp add: unsubscribeError_def tracks_frame)
next
  case (Unsubscribe_status g)
  with assms have "s' = unsubscribeStatusChange g s" by simp
  then show ?thesis by (simp add: tracks_unsubscribe)
next
  case (SockOpen k)
  with assms have "s' = onopen k (set_readyState k OPEN s)" by (simp split: if_splits)
  then show ?thesis by (simp add: tracks_onopen tracks_set_readyState tracks_refl)
next
  case (SockMessage k d)
  with assms have "s' = onmessage P k d s" by (simp split: if_splits)
  then show ?thesis by (simp add: tracks_onmessage tracks_refl)
next
  case (SockClosing k)
  with assms have "s' = set_readyState k CLOSING s" by (simp split: if_splits)
  then show ?thesis by (simp add: tracks_set_readyState tracks_refl)
next
  case (SockClose k c f)
  with assms have "s' = onclose k c (if f then onerror k (set_readyState k CLOSED s)
                                     else set_readyState k CLOSED s)"
    by (simp add: Let_def split: if_splits)
  then show ?thesis by (simp add: tracks_onclose tracks_onerror tracks_set_readyState tracks_refl)
next
  case (Elapse d)
  with assms have "s' = s\<lparr> now := now s + d \<rparr>" by simp
  then show ?thesis by (simp add: tracks_frame)
next
  case Fire
  with assms obtain t where s': "s' = run_timer P t s"
    by (auto split: option.splits if_splits)
  show ?thesis
    unfolding s' run_timer_def Let_def
    by (cases "action t")
       (simp_all add: tracks_timeout_cb tracks_reconnect_cb tracks_clearTimeout tracks_refl)
qed

lemma tracks_run:
  "Subscribe_status h \<notin> set es \<Longrightarrow> run P es s = Some s' \<Longrightarrow> tracks h s s'"
proof (induction es arbitrary: s)
  case Nil
  then show ?case by (simp add: tracks_refl)
next
  case (Cons e es)
  from Cons.prems(2) obtain s1 where s1: "step P e s = Some s1" and r: "run P es s1 = Some s'"
    by (cases "step P e s") simp_all
  from Cons.prems(1) have ne: "e \<noteq> Subscribe_status h" and rest: "Subscribe_status h \<notin> set es"
    by auto
  from tracks_step [OF ne s1] Cons.IH [OF rest r] show ?case by (rule tracks_trans)
qed

text \<open>
  Claim C10, as stated, lets no observer receive the same status twice in a row. A
  change of status calls every entry of the handler list, so a handler function that
  was subscribed twice is called twice with each new status. And a registration sees
  only the changes made while it is in the list: a handler that was last called with
  \<open>disconnected\<close>, unsubscribes, and subscribes again after the status has moved to
  \<open>connecting\<close>, is called with \<open>disconnected\<close> again when the connection times out.
\<close>

theorem same_status_twice_in_a_row:
  "map_option (seen 1)
     (run sample_platform [Subscribe_status 1, Subscribe_status 1, Connect]
        (new_service ''ws://host/api''))
   = Some [Connecting, Connecting] \<and>
   map_option (seen 1)
     (run sample_platform
        [Subscribe_status 1, Connect, SockClose 0 1006 True, Unsubscribe_status 1, Connect,
         Subscribe_status 1, Elapse 5000, Fire]
        (new_service ''ws://host/api''))
   = Some [Connecting, Error, Disconnected, Disconnected]"
  by (simp add: prim_defs method_defs sample_defs)

text \<open>
  Claim C10, amended: \<open>setStatus\<close> with the status the channel already holds changes
  nothing and calls no handler; with a different status it stores it and calls every
  registered status handler once per registration, in order. Since the status changes
  nowhere else, a handler that holds at most one registration and is not subscribed
  again is never called with the same status twice in a row, whatever events occur, and
  the first status it is called with differs from the status at the start. Calling
  \<open>connect()\<close> on a channel that is not connecting and then opening the new socket calls
  every registration with \<open>connecting\<close> and then every registration with \<open>connected\<close>,
  and nothing else.
\<close>

theorem status_notified_only_on_change:
  "setStatus (status s) s = s \<and>
   (status s \<noteq> st \<longrightarrow>
      setStatus st s =
        s\<lparr> status := st,
           calls := calls s @ map (\<lambda>g. StatusCall g st) (statusChangeHandlers s) \<rparr>) \<and>
   (count_list (statusChangeHandlers s) h \<le> 1 \<and> Subscribe_status h \<notin> set es \<and>
    run P es s = Some s' \<longrightarrow>
      (\<exists>new. seen h s' = seen h s @ new \<and> distinct_adj (status s # new))) \<and>
   (status s \<noteq> Connecting \<and> socket_readyState s \<noteq> Some OPEN \<and>
    socket_readyState s \<noteq> Some CONNECTING \<and> ctor_throws P = None \<longrightarrow>
      (\<exists>t. run P [Connect, SockOpen (nsock s)] s = Some t \<and>
           calls t = calls s @ map (\<lambda>g. StatusCall g Connecting) (statusChangeHandlers s)
                             @ map (\<lambda>g. StatusCall g Connected) (statusChangeHandlers s)))"
proof (intro conjI impI)
  show "setStatus (status s) s = s" by (simp add: setStatus_def)
next
  assume "status s \<noteq> st"
  then show "setStatus st s =
        s\<lparr> status := st,
           calls := calls s @ map (\<lambda>g. StatusCall g st) (statusChangeHandlers s) \<rparr>"
    by (simp add: setStatus_def notifyStatusChangeHandlers_def)
next
  assume a: "count_list (statusChangeHandlers s) h \<le> 1 \<and> Subscribe_status h \<notin> set es \<and>
    run P es s = Some s'"
  then have t: "tracks h s s'" using tracks_run by blast
  then obtain new where n: "received h (calls s') = received h (calls s) @ new"
    and e: "h \<notin> set (statusChangeHandlers s) \<longrightarrow> new = []"
    and d: "h \<in> set (statusChangeHandlers s) \<and> count_list (statusChangeHandlers s) h \<le> 1 \<longrightarrow>
           distinct_adj (status s # new)"
    unfolding tracks_def by (elim conjE exE) simp
  from a e d have "distinct_adj (status s # new)"
    by (cases "h \<in> set (statusChangeHandlers s)") simp_all
  with n show "\<exists>new. seen h s' = seen h s @ new \<and> distinct_adj (status s # new)"
    unfolding seen_def by blast
next
  assume "status s \<noteq> Connecting \<and> socket_readyState s \<noteq> Some OPEN \<and>
    socket_readyState s \<noteq> Some CONNECTING \<and> ctor_throws P = None"
  then show "\<exists>t. run P [Connect, SockOpen (nsock s)] s = Some t \<and>
           calls t = calls s @ map (\<lambda>g. StatusCall g Connecting) (statusChangeHandlers s)
                             @ map (\<lambda>g. StatusCall g Connected) (statusChangeHandlers s)"
    by (simp add: connect_def onopen_def prim_defs Let_def)
qed

theorem status_notified_only_on_change_witness:
  "status opened_service \<noteq> Disconnected \<and>
   calls (setStatus Disconnected (onStatusChange 1 opened_service)) = [StatusCall 1 Disconnected] \<and>
   calls (setStatus Connected (onStatusChange 1 opened_service)) = [] \<and>
   count_list (statusChangeHandlers (onStatusChange 1 (new_service ''ws://host/api''))) 1 \<le> 1 \<and>
   Subscribe_status 1 \<notin> set [Connect, SockOpen 0, SockClose 0 1001 False, Elapse 1000, Fire,
                                SockOpen 1, Disconnect, Disconnect] \<and>
   map_option (seen 1)
     (run sample_platform
        [Connect, SockOpen 0, SockClose 0 1001 False, Elapse 1000, Fire, SockOpen 1,
         Disconnect, Disconnect]
        (onStatusChange 1 (new_service ''ws://host/api'')))
     = Some [Connecting, Connected, Disconnected, Connecting, Connected, Disconnected] \<and>
   status (new_service ''ws://host/api'') \<noteq> Connecting \<and>
   map_option calls
     (run sample_platform [Connect, SockOpen 0] (onStatusChange 1 (new_service ''ws://host/api'')))
     = Some [StatusCall 1 Connecting, StatusCall 1 Connected]"
  using status_notified_only_on_change
          [of "onStatusChange 1 opened_service" Disconnected 1 "[]" sample_platform
              "onStatusChange 1 opened_service"]
        status_notified_only_on_change
          [of "onStatusChange 1 (new_service ''ws://host/api'')" Connecting 1
              "[Connect, SockOpen 0, SockClose 0 1001 False, Elapse 1000, Fire, SockOpen 1,
                Disconnect, Disconnect]" sample_platform]
  by (simp add: prim_defs method_defs sample_defs seen_def)

end
